theory Spec2Isabelle
  imports Main "HOL-Library.Word"
begin

section \<open>Object-store paths (fb\_ad\_creative\_retriever.py)\<close>

type_synonym bytes = string

text \<open>
  \<^verbatim>\<open>os.path.join\<close> on a POSIX host: a component that starts with a slash replaces
  what was joined so far; otherwise it is appended, after a slash unless the path so far
  is empty or already ends in one.
\<close>

definition path_join2 :: "string \<Rightarrow> string \<Rightarrow> string" where
  "path_join2 path b =
     (if b \<noteq> [] \<and> hd b = CHR ''/'' then b
      else if path = [] \<or> last path = CHR ''/'' then path @ b
      else path @ ''/'' @ b)"

definition os_path_join :: "string \<Rightarrow> string list \<Rightarrow> string" where
  "os_path_join a ps = foldl path_join2 a ps"

text \<open>\<^verbatim>\<open>range(0, stop, step)\<close> for a stop that may be negative and a positive step.\<close>

definition py_range0 :: "int \<Rightarrow> nat \<Rightarrow> nat list" where
  "py_range0 stop step = filter (\<lambda>x. x mod step = 0) [0 ..< nat stop]"

text \<open>The slice \<^verbatim>\<open>s[i:j]\<close> for \<open>0 \<le> i \<le> j\<close>: shorter than \<open>j - i\<close> past the end.\<close>

definition py_slice :: "'a list \<Rightarrow> nat \<Rightarrow> nat \<Rightarrow> 'a list" where
  "py_slice s i j = take (j - i) (drop i s)"

definition VIDEO_HASH_PATH_DIR_NAME_LENGTH :: nat where
  "VIDEO_HASH_PATH_DIR_NAME_LENGTH = 4"

definition make_image_hash_file_path :: "string \<Rightarrow> string" where
  "make_image_hash_file_path image_hash =
     (let base_file_name = image_hash @ ''.jpg''
      in os_path_join (py_slice image_hash 0 4)
           [py_slice image_hash 4 8, py_slice image_hash 8 12, py_slice image_hash 12 16,
            py_slice image_hash 16 20, py_slice image_hash 20 24, py_slice image_hash 24 28,
            base_file_name])"

definition video_hash_dirs :: "string \<Rightarrow> string list" where
  "video_hash_dirs video_sha256_hash =
     map (\<lambda>x. py_slice video_sha256_hash x (x + VIDEO_HASH_PATH_DIR_NAME_LENGTH))
       (py_range0 (int (length video_sha256_hash) - int VIDEO_HASH_PATH_DIR_NAME_LENGTH)
          VIDEO_HASH_PATH_DIR_NAME_LENGTH)"

definition make_video_sha256_hash_file_path :: "string \<Rightarrow> string" where
  "make_video_sha256_hash_file_path video_sha256_hash =
     (let base_file_name = video_sha256_hash @ ''.mp4'';
          dirs = video_hash_dirs video_sha256_hash
      in case dirs @ [base_file_name] of
           a # ps \<Rightarrow> os_path_join a ps
         | [] \<Rightarrow> [])"

text \<open>
  The video path as the specification words it: every consecutive 4-character segment of
  the hash is a directory, only a final partial segment is left out.
\<close>

definition spec_video_hash_dirs :: "string \<Rightarrow> string list" where
  "spec_video_hash_dirs h =
     map (\<lambda>x. py_slice h x (x + 4))
       (filter (\<lambda>x. x + 4 \<le> length h) (py_range0 (int (length h)) 4))"

definition spec_video_hash_file_path :: "string \<Rightarrow> string" where
  "spec_video_hash_file_path h =
     concat (map (\<lambda>d. d @ ''/'') (spec_video_hash_dirs h)) @ h @ ''.mp4''"

definition sha256_of_empty :: string where
  "sha256_of_empty = ''e3b0c44298fc1c149afbf4c8996fb92427ae41e4649b934ca495991b7852b855''"


section \<open>Exceptions\<close>

text \<open>
  The exceptions the two programs raise, catch or let through. The rate-limit signals
  carry the attribute \<^verbatim>\<open>wait_before_next_batch_seconds\<close> when the extractor set it.
\<close>

datatype exn =
    BrowserTimeoutError
  | WebDriverException
  | RequestException
  | SnapshotNoContentFoundError
  | SnapshotMissingMediaError
  | SnapshotAgeRestrictionError
  | SnapshotIntellectualPropertyViolationError
  | SnapshotInvalidIdError
  | SnapshotWrongAdArchiveIdError
  | SnapshotPermanentlyUnavailableError
  | TooManyRequestsError "nat option"
  | EndBatchCrawlerException "nat option"
  | TransientError
  | RetryError
  | ValueError
  | NameError string
  | KeyboardInterrupt

section \<open>Object store and \<^verbatim>\<open>upload_blob\<close>\<close>

text \<open>
  Modelled from the spec: the object-store client is an external collaborator, and only
  its calls \<^verbatim>\<open>blob.exists()\<close>, \<^verbatim>\<open>blob.upload_from_string\<close> and \<^verbatim>\<open>blob.id\<close> appear in
  the source. A bucket maps a path to the stored bytes and the generation of the object;
  the id of a blob is its path with the generation of the object stored there. Each request
  to the store may fail: \<open>faults\<close> scripts the coming requests (\<open>True\<close> is a
  transient failure, an exhausted script no failure).
\<close>

type_synonym blob_id = "string \<times> nat"

record bucket =
  objects :: "string \<rightharpoonup> (bytes \<times> nat)"
  num_uploads :: nat
  faults :: "bool list"

definition next_request :: "bucket \<Rightarrow> bool \<times> bucket" where
  "next_request b =
     (case faults b of
        [] \<Rightarrow> (False, b)
      | f # fs \<Rightarrow> (f, b\<lparr>faults := fs\<rparr>))"

definition blob_exists :: "bucket \<Rightarrow> string \<Rightarrow> (exn + bool) \<times> bucket" where
  "blob_exists b blob_path =
     (case next_request b of
        (True, b') \<Rightarrow> (Inl TransientError, b')
      | (False, b') \<Rightarrow> (Inr (objects b' blob_path \<noteq> None), b'))"

definition blob_upload_from_string :: "bucket \<Rightarrow> string \<Rightarrow> bytes \<Rightarrow> (exn + unit) \<times> bucket" where
  "blob_upload_from_string b blob_path blob_data =
     (case next_request b of
        (True, b') \<Rightarrow> (Inl TransientError, b')
      | (False, b') \<Rightarrow>
          (Inr (), b'\<lparr>objects := (objects b')(blob_path \<mapsto> (blob_data, num_uploads b')),
                       num_uploads := num_uploads b' + 1\<rparr>))"

definition blob_id_of :: "bucket \<Rightarrow> string \<Rightarrow> blob_id option" where
  "blob_id_of b blob_path =
     (case objects b blob_path of
        None \<Rightarrow> None
      | Some (stored, generation) \<Rightarrow> Some (blob_path, generation))"

text \<open>The body of \<^verbatim>\<open>upload_blob\<close>: one attempt.\<close>

definition upload_blob_attempt ::
  "bucket \<Rightarrow> string \<Rightarrow> bytes \<Rightarrow> (exn + blob_id option) \<times> bucket" where
  "upload_blob_attempt bucket_client blob_path blob_data =
     (case blob_exists bucket_client blob_path of
        (Inl e, b1) \<Rightarrow> (Inl e, b1)
      | (Inr True, b1) \<Rightarrow> (Inr (blob_id_of b1 blob_path), b1)
      | (Inr False, b1) \<Rightarrow>
          (case blob_upload_from_string b1 blob_path blob_data of
             (Inl e, b2) \<Rightarrow> (Inl e, b2)
           | (Inr u, b2) \<Rightarrow> (Inr (blob_id_of b2 blob_path), b2)))"

text \<open>
  The decorator \<^verbatim>\<open>tenacity.retry(stop=stop_after_attempt(4), ...)\<close>: a failed attempt is
  repeated, and the fourth failure raises \<^verbatim>\<open>RetryError\<close>. The waits between attempts
  touch no state of the model.
\<close>

fun retry_upload ::
  "nat \<Rightarrow> bucket \<Rightarrow> string \<Rightarrow> bytes \<Rightarrow> (exn + blob_id option) \<times> bucket" where
  "retry_upload 0 bucket_client blob_path blob_data = (Inl RetryError, bucket_client)"
| "retry_upload (Suc n) bucket_client blob_path blob_data =
     (case upload_blob_attempt bucket_client blob_path blob_data of
        (Inr i, b') \<Rightarrow> (Inr i, b')
      | (Inl e, b') \<Rightarrow> retry_upload n b' blob_path blob_data)"

definition upload_blob ::
  "bucket \<Rightarrow> string \<Rightarrow> bytes \<Rightarrow> (exn + blob_id option) \<times> bucket" where
  "upload_blob bucket_client blob_path blob_data =
     retry_upload 4 bucket_client blob_path blob_data"




section \<open>Python built-ins used by the retrieval pipeline\<close>

text \<open>\<^verbatim>\<open>'%x' % n\<close> and \<^verbatim>\<open>'%d' % i\<close>.\<close>

definition digit_char :: "nat \<Rightarrow> char" where
  "digit_char d = ''0123456789abcdef'' ! d"

fun format_x :: "nat \<Rightarrow> string" where
  "format_x n = (if n < 16 then [digit_char n] else format_x (n div 16) @ [digit_char (n mod 16)])"

fun format_d_nat :: "nat \<Rightarrow> string" where
  "format_d_nat n =
     (if n < 10 then [digit_char n] else format_d_nat (n div 10) @ [digit_char (n mod 10)])"

definition format_d :: "int \<Rightarrow> string" where
  "format_d i = (if i < 0 then CHR ''-'' # format_d_nat (nat (- i)) else format_d_nat (nat i))"

text \<open>
  \<^verbatim>\<open>int(s)\<close> on a string: surrounding whitespace is dropped, one sign is allowed, and the
  rest must be decimal digits, with single underscores allowed between digits. Anything
  else raises \<^verbatim>\<open>ValueError\<close>, here \<open>None\<close>. A header value is a Latin-1 string, so
  a character is one byte.
\<close>

definition is_py_space :: "char \<Rightarrow> bool" where
  "is_py_space c =
     (of_char c \<in> set [9, 10, 11, 12, 13, 28, 29, 30, 31, 32, 133, 160 :: nat])"

definition py_strip :: "string \<Rightarrow> string" where
  "py_strip s = rev (dropWhile is_py_space (rev (dropWhile is_py_space s)))"

definition is_digit :: "char \<Rightarrow> bool" where
  "is_digit c = (48 \<le> (of_char c :: nat) \<and> (of_char c :: nat) \<le> 57)"

fun digits_ok :: "string \<Rightarrow> bool" where
  "digits_ok [] = False"
| "digits_ok [c] = is_digit c"
| "digits_ok (c # d # r) =
     (is_digit c \<and> (if d = CHR ''_'' then digits_ok r else digits_ok (d # r)))"

definition digits_value :: "string \<Rightarrow> int" where
  "digits_value ds =
     foldl (\<lambda>a c. 10 * a + (of_char c - 48)) 0 (filter (\<lambda>c. c \<noteq> CHR ''_'') ds)"

definition py_int :: "string \<Rightarrow> int option" where
  "py_int s =
     (let t = py_strip s;
          negative = (t \<noteq> [] \<and> hd t = CHR ''-'');
          ds = (if t \<noteq> [] \<and> (hd t = CHR ''-'' \<or> hd t = CHR ''+'') then tl t else t)
      in if digits_ok ds
         then Some (if negative then - digits_value ds else digits_value ds)
         else None)"

text \<open>
  The response headers are a case-insensitive dictionary: \<open>headers_get\<close> is both the
  membership test and \<^verbatim>\<open>headers.get\<close>.
\<close>

definition ascii_lower :: "char \<Rightarrow> char" where
  "ascii_lower c =
     (if 65 \<le> (of_char c :: nat) \<and> (of_char c :: nat) \<le> 90
      then char_of (of_char c + 32 :: nat) else c)"

definition headers_get :: "(string \<times> string) list \<Rightarrow> string \<Rightarrow> string option" where
  "headers_get hs name =
     map_of (map (\<lambda>(k, v). (map ascii_lower k, v)) hs) (map ascii_lower name)"

text \<open>Truth value of an optional string or byte string: \<^verbatim>\<open>None\<close> and the empty one are false.\<close>

definition truthy :: "'a list option \<Rightarrow> bool" where
  "truthy v = (case v of None \<Rightarrow> False | Some s \<Rightarrow> s \<noteq> [])"

section \<open>Data model of the retrieval pipeline\<close>

datatype SnapshotFetchStatus =
    UNKNOWN
  | SUCCESS
  | NO_CONTENT_FOUND
  | INVALID_ID_ERROR
  | AGE_RESTRICTION_ERROR
  | NO_AD_CREATIVES_FOUND
  | INTELLECTUAL_PROPERTY_VIOLATION_ERROR
  | SNAPSHOT_PERMANENTLY_UNAVAILABLE_ERROR


record AdCreativeRecord =
  archive_id :: int
  ad_creative_body :: "string option"
  ad_creative_body_language :: "string option"
  ad_creative_link_url :: "string option"
  ad_creative_link_caption :: "string option"
  ad_creative_link_title :: "string option"
  ad_creative_link_description :: "string option"
  ad_creative_link_button_text :: "string option"
  text_sha256_hash :: "string option"
  image_sha256_hash :: "string option"
  image_downloaded_url :: "string option"
  image_bucket_path :: "string option"
  text_sim_hash :: "string option"
  image_sim_hash :: "string option"
  video_sha256_hash :: "string option"
  video_downloaded_url :: "string option"
  video_bucket_path :: "string option"

text \<open>
  \<^verbatim>\<open>AdCreativeRecordUniqueConstraintAttributes\<close>: archive id, text, image and video
  SHA-256. \<open>None\<close> is a value of its own, equal only to itself.
\<close>

type_synonym AdCreativeRecordUniqueConstraintAttributes =
  "int \<times> string option \<times> string option \<times> string option"

definition unique_constraint_attrs_of ::
  "AdCreativeRecord \<Rightarrow> AdCreativeRecordUniqueConstraintAttributes" where
  "unique_constraint_attrs_of r =
     (archive_id r, text_sha256_hash r, image_sha256_hash r, video_sha256_hash r)"

record AdSnapshotMetadataRecord =
  snapshot_archive_id :: int
  snapshot_fetch_time :: nat
  snapshot_fetch_status :: SnapshotFetchStatus

text \<open>What the extractor hands back: a screenshot and the creatives of the snapshot.\<close>

record FetchedImage =
  image_url :: string
  image_binary_data :: bytes

record LinkAttributes =
  link_url :: "string option"
  link_caption :: "string option"
  link_title :: "string option"
  link_description :: "string option"
  link_button :: "string option"

record FetchedCreative =
  creative_body :: "string option"
  creative_image :: "FetchedImage option"
  creative_video_url :: "string option"
  creative_link_attributes :: "LinkAttributes option"

record ScreenshotAndCreatives =
  screenshot_binary_data :: "bytes option"
  creatives :: "FetchedCreative list"

datatype fetch_outcome = Fetched ScreenshotAndCreatives | Raises exn

text \<open>
  The answer to \<^verbatim>\<open>requests.get(video_url, timeout=30, stream=True)\<close>: the request fails,
  or a response arrives with a status, headers and a body; reading the body of a streamed
  response may fail in turn (\<open>None\<close>).
\<close>

record HttpResponse =
  status_code :: nat
  headers :: "(string \<times> string) list"
  content :: "bytes option"

datatype http_result = RequestFailed | Responded HttpResponse

text \<open>
  The collaborators outside the repository, as parameters: the extractor (its answer to
  the \<open>n\<close>-th call, for an archive id), the web, the image hash (\<open>None\<close> is the
  \<^verbatim>\<open>OSError\<close> of a picture that does not decode), SHA-256, the text SimHash, the UTF-32
  encoder and the language detector (\<open>None\<close> is \<^verbatim>\<open>LangDetectException\<close>).
\<close>

record world =
  creative_retriever :: "nat \<Rightarrow> int \<Rightarrow> fetch_outcome"
  requests_get :: "string \<Rightarrow> http_result"
  get_image_dhash :: "bytes \<Rightarrow> string option"
  sha256_hexdigest :: "bytes \<Rightarrow> string"
  hash_ad_creative_text :: "string \<Rightarrow> nat"
  encode_utf32 :: "string \<Rightarrow> bytes"
  detect :: "string \<Rightarrow> string option"

text \<open>
  What the pipeline does to the store and to the operator, in order. The two batch calls
  are made with \<^verbatim>\<open>self.current_batch_id\<close>.
\<close>

datatype event =
    InsertAdCreativeRecords "AdCreativeRecord list"
  | UpdateAdSnapshotMetadata "AdSnapshotMetadataRecord list"
  | ReleaseUncompletedFetchBatch "int option"
  | MarkFetchBatchCompleted "int option"
  | SlackMessage exn nat
  | Sleep nat

text \<open>
  The fields of \<^verbatim>\<open>FacebookAdCreativeRetriever\<close>, with what the model adds to observe
  it: the number of extractor calls and of browser resets, the clock, the answers the
  store will give to the coming lease requests, and the trace of events.
\<close>

record retriever =
  ad_creative_images_bucket_client :: bucket
  ad_creative_videos_bucket_client :: bucket
  archive_screenshots_bucket_client :: bucket
  max_video_download_size :: int
  num_snapshots_processed :: nat
  num_snapshots_fetch_failed :: nat
  num_ad_creatives_found :: nat
  num_snapshots_without_creative_found :: nat
  num_image_download_success :: nat
  num_image_download_failure :: nat
  num_image_uploade_to_gcs_bucket :: nat
  num_video_download_success :: nat
  num_video_download_failure :: nat
  num_video_uploade_to_gcs_bucket :: nat
  current_batch_id :: "int option"
  commit_to_db_every_n_processed :: nat
  start_time :: "nat option"
  extractor_calls :: nat
  browser_resets :: nat
  clock :: nat
  lease_answers :: "(int \<times> int list) option list"
  trace :: "event list"

definition CONTENT_LENGTH_HEADER :: string where
  "CONTENT_LENGTH_HEADER = ''content-length''"

definition DEFAULT_MAX_VIDEO_DOWNLOAD_SIZE :: int where
  "DEFAULT_MAX_VIDEO_DOWNLOAD_SIZE = 512000000"

definition RESET_BROWSER_AFTER_PROCESSING_N_SNAPSHOTS :: nat where
  "RESET_BROWSER_AFTER_PROCESSING_N_SNAPSHOTS = 2000"

definition TOO_MANY_REQUESTS_SLEEP_TIME :: nat where
  "TOO_MANY_REQUESTS_SLEEP_TIME = 4 * 60 * 60"

definition NO_AVAILABLE_WORK_SLEEP_TIME :: nat where
  "NO_AVAILABLE_WORK_SLEEP_TIME = 1 * 60 * 60"

section \<open>The retrieval pipeline (class \<^verbatim>\<open>FacebookAdCreativeRetriever\<close>)\<close>

text \<open>
  A record field of the model is a constant, so a variable of the source that has the name
  of a field is renamed: the archive id at hand is \<open>aid\<close>.
\<close>

definition reset_start_time :: "retriever \<Rightarrow> retriever" where
  "reset_start_time self = self\<lparr>start_time := Some (clock self)\<rparr>"

definition reset_creative_retriever :: "retriever \<Rightarrow> retriever" where
  "reset_creative_retriever self = self\<lparr>browser_resets := browser_resets self + 1\<rparr>"

definition call_creative_retriever :: "world \<Rightarrow> retriever \<Rightarrow> int \<Rightarrow> fetch_outcome \<times> retriever" where
  "call_creative_retriever w self aid =
     (creative_retriever w (extractor_calls self) aid,
      self\<lparr>extractor_calls := extractor_calls self + 1\<rparr>)"

subsection \<open>Uploads\<close>

definition store_image_in_google_bucket ::
  "retriever \<Rightarrow> string \<Rightarrow> bytes \<Rightarrow> (exn + string) \<times> retriever" where
  "store_image_in_google_bucket self image_dhash image_bytes =
     (let bucket_path = make_image_hash_file_path image_dhash
      in case upload_blob (ad_creative_images_bucket_client self) bucket_path image_bytes of
           (Inl e, b) \<Rightarrow> (Inl e, self\<lparr>ad_creative_images_bucket_client := b\<rparr>)
         | (Inr blob_id, b) \<Rightarrow>
             (Inr bucket_path,
              self\<lparr>ad_creative_images_bucket_client := b,
                   num_image_uploade_to_gcs_bucket := num_image_uploade_to_gcs_bucket self + 1\<rparr>))"

definition store_video_in_google_bucket ::
  "retriever \<Rightarrow> string \<Rightarrow> bytes \<Rightarrow> (exn + string) \<times> retriever" where
  "store_video_in_google_bucket self video_sha256 video_bytes =
     (let bucket_path = make_video_sha256_hash_file_path video_sha256
      in case upload_blob (ad_creative_videos_bucket_client self) bucket_path video_bytes of
           (Inl e, b) \<Rightarrow> (Inl e, self\<lparr>ad_creative_videos_bucket_client := b\<rparr>)
         | (Inr blob_id, b) \<Rightarrow>
             (Inr bucket_path,
              self\<lparr>ad_creative_videos_bucket_client := b,
                   num_video_uploade_to_gcs_bucket := num_video_uploade_to_gcs_bucket self + 1\<rparr>))"

definition store_snapshot_screenshot ::
  "retriever \<Rightarrow> int \<Rightarrow> bytes \<Rightarrow> (exn + unit) \<times> retriever" where
  "store_snapshot_screenshot self aid screenshot_bytes =
     (let bucket_path = format_d aid @ ''.png''
      in case upload_blob (archive_screenshots_bucket_client self) bucket_path
                screenshot_bytes of
           (Inl e, b) \<Rightarrow> (Inl e, self\<lparr>archive_screenshots_bucket_client := b\<rparr>)
         | (Inr blob_id, b) \<Rightarrow> (Inr (), self\<lparr>archive_screenshots_bucket_client := b\<rparr>))"

subsection \<open>\<^verbatim>\<open>download_video\<close>\<close>

text \<open>\<^verbatim>\<open>raise_for_status\<close> raises \<^verbatim>\<open>HTTPError\<close>, a \<^verbatim>\<open>RequestException\<close>, on 4xx and 5xx.\<close>

definition raise_for_status :: "HttpResponse \<Rightarrow> bool" where
  "raise_for_status r = (400 \<le> status_code r \<and> status_code r < 600)"

text \<open>
  The result is \<open>Inr None\<close> for the Python \<^verbatim>\<open>None\<close>, \<open>Inr (Some (hash, path))\<close> for
  \<^verbatim>\<open>DownloadedVideoAttributes\<close>, and \<open>Inl\<close> for an exception the function lets through
  (a failed upload).
\<close>

definition download_video ::
  "world \<Rightarrow> retriever \<Rightarrow> int \<Rightarrow> string \<Rightarrow> (exn + (string \<times> string) option) \<times> retriever" where
  "download_video w self aid video_url =
     (case requests_get w video_url of
        RequestFailed \<Rightarrow>
          (Inr None, self\<lparr>num_video_download_failure := num_video_download_failure self + 1\<rparr>)
      | Responded video_request \<Rightarrow>
          if raise_for_status video_request
          then (Inr None,
                self\<lparr>num_video_download_failure := num_video_download_failure self + 1\<rparr>)
          else
            (case headers_get (headers video_request) CONTENT_LENGTH_HEADER of
               None \<Rightarrow> (Inr None, self)
             | Some header_value \<Rightarrow>
                 (case py_int header_value of
                    None \<Rightarrow> (Inr None, self)
                  | Some video_content_len \<Rightarrow>
                      if video_content_len > max_video_download_size self
                      then (Inr None,
                            self\<lparr>num_video_download_failure :=
                                   num_video_download_failure self + 1\<rparr>)
                      else
                        (case content video_request of
                           None \<Rightarrow>
                             (Inr None,
                              self\<lparr>num_video_download_failure :=
                                     num_video_download_failure self + 1\<rparr>)
                         | Some video_bytes \<Rightarrow>
                             (let self1 = self\<lparr>num_video_download_success :=
                                                 num_video_download_success self + 1\<rparr>;
                                  video_sha256 = sha256_hexdigest w video_bytes
                              in case store_video_in_google_bucket self1 video_sha256
                                        video_bytes of
                                   (Inl e, self2) \<Rightarrow> (Inl e, self2)
                                 | (Inr bucket_path, self2) \<Rightarrow>
                                     (Inr (Some (video_sha256, bucket_path)), self2))))))"

subsection \<open>\<^verbatim>\<open>process_fetched_ad_creative_data\<close>\<close>

text \<open>
  The image part of the loop body. The fields are \<^verbatim>\<open>image_dhash\<close>, \<^verbatim>\<open>image_sha256\<close>,
  \<^verbatim>\<open>image_bucket_path\<close> and \<^verbatim>\<open>image_url\<close>; \<open>Inr None\<close> is the \<^verbatim>\<open>continue\<close> after a
  picture that does not decode.
\<close>

type_synonym image_fields = "string option \<times> string option \<times> string option \<times> string option"

definition creative_image_fields ::
  "world \<Rightarrow> retriever \<Rightarrow> FetchedCreative \<Rightarrow> (exn + image_fields option) \<times> retriever" where
  "creative_image_fields w self creative =
     (case creative_image creative of
        None \<Rightarrow> (Inr (Some (None, None, None, None)), self)
      | Some img \<Rightarrow>
          (case get_image_dhash w (image_binary_data img) of
             None \<Rightarrow>
               (Inr None,
                self\<lparr>num_image_download_failure := num_image_download_failure self + 1\<rparr>)
           | Some image_dhash \<Rightarrow>
               (let self1 = self\<lparr>num_image_download_success :=
                                   num_image_download_success self + 1\<rparr>;
                    image_sha256 = sha256_hexdigest w (image_binary_data img)
                in case store_image_in_google_bucket self1 image_dhash
                          (image_binary_data img) of
                     (Inl e, self2) \<Rightarrow> (Inl e, self2)
                   | (Inr bucket_path, self2) \<Rightarrow>
                       (Inr (Some (Some image_dhash, Some image_sha256, Some bucket_path,
                                   Some (image_url img))), self2))))"

text \<open>The video part: \<^verbatim>\<open>video_sha256\<close> and \<^verbatim>\<open>video_bucket_path\<close>.\<close>

definition creative_video_fields ::
  "world \<Rightarrow> retriever \<Rightarrow> int \<Rightarrow> FetchedCreative \<Rightarrow>
   (exn + string option \<times> string option) \<times> retriever" where
  "creative_video_fields w self aid creative =
     (if truthy (creative_video_url creative)
      then
        (case download_video w self aid (case creative_video_url creative of
                                                   Some u \<Rightarrow> u | None \<Rightarrow> []) of
           (Inl e, self1) \<Rightarrow> (Inl e, self1)
         | (Inr None, self1) \<Rightarrow> (Inr (None, None), self1)
         | (Inr (Some (video_sha256, bucket_path)), self1) \<Rightarrow>
             (Inr (Some video_sha256, Some bucket_path), self1))
      else (Inr (None, None), self))"

text \<open>
  The text part: \<^verbatim>\<open>text\<close>, \<^verbatim>\<open>text_sim_hash\<close>, \<^verbatim>\<open>text_sha256_hash\<close> and
  \<^verbatim>\<open>ad_creative_body_language\<close>.
\<close>

type_synonym text_fields = "string option \<times> string option \<times> string option \<times> string option"

definition creative_text_fields :: "world \<Rightarrow> FetchedCreative \<Rightarrow> text_fields" where
  "creative_text_fields w creative =
     (if truthy (creative_body creative)
      then (let text = (case creative_body creative of Some t \<Rightarrow> t | None \<Rightarrow> [])
            in (Some text,
                Some (format_x (hash_ad_creative_text w text)),
                Some (sha256_hexdigest w (encode_utf32 w text)),
                detect w text))
      else (None, None, None, None))"

definition make_ad_creative_record ::
  "int \<Rightarrow> FetchedCreative \<Rightarrow> text_fields \<Rightarrow> image_fields \<Rightarrow> string option \<times> string option \<Rightarrow>
   AdCreativeRecord" where
  "make_ad_creative_record aid creative tf imf vf =
     (case (tf, imf, vf) of
        ((text, text_sim, text_sha256, language),
         (image_dhash, image_sha256, image_path, image_from),
         (video_sha256, video_path)) \<Rightarrow>
        \<lparr>archive_id = aid,
         ad_creative_body = text,
         ad_creative_body_language = language,
         ad_creative_link_url =
           (case creative_link_attributes creative of None \<Rightarrow> None | Some l \<Rightarrow> link_url l),
         ad_creative_link_caption =
           (case creative_link_attributes creative of None \<Rightarrow> None | Some l \<Rightarrow> link_caption l),
         ad_creative_link_title =
           (case creative_link_attributes creative of None \<Rightarrow> None | Some l \<Rightarrow> link_title l),
         ad_creative_link_description =
           (case creative_link_attributes creative of
              None \<Rightarrow> None | Some l \<Rightarrow> link_description l),
         ad_creative_link_button_text =
           (case creative_link_attributes creative of None \<Rightarrow> None | Some l \<Rightarrow> link_button l),
         text_sha256_hash = text_sha256,
         image_sha256_hash = image_sha256,
         image_downloaded_url = image_from,
         image_bucket_path = image_path,
         text_sim_hash = text_sim,
         image_sim_hash = image_dhash,
         video_sha256_hash = video_sha256,
         video_downloaded_url = creative_video_url creative,
         video_bucket_path = video_path\<rparr>)"

text \<open>
  The body of the loop over the creatives, on the set of constraint tuples seen so far
  and the records made so far.
\<close>

definition process_creative ::
  "world \<Rightarrow> int \<Rightarrow> FetchedCreative \<Rightarrow>
   AdCreativeRecordUniqueConstraintAttributes set \<times> AdCreativeRecord list \<Rightarrow> retriever \<Rightarrow>
   (exn + AdCreativeRecordUniqueConstraintAttributes set \<times> AdCreativeRecord list) \<times> retriever" where
  "process_creative w aid creative acc self =
     (case acc of (seen_unique_constraint_attrs, ad_creative_records) \<Rightarrow>
      (case creative_image_fields w self creative of
         (Inl e, self1) \<Rightarrow> (Inl e, self1)
       | (Inr None, self1) \<Rightarrow> (Inr acc, self1)
       | (Inr (Some imf), self1) \<Rightarrow>
           (case creative_video_fields w self1 aid creative of
              (Inl e, self2) \<Rightarrow> (Inl e, self2)
            | (Inr vf, self2) \<Rightarrow>
                (let tf = creative_text_fields w creative;
                     new_record = make_ad_creative_record aid creative tf imf vf;
                     unique_constraint_attrs = unique_constraint_attrs_of new_record
                 in if unique_constraint_attrs \<in> seen_unique_constraint_attrs
                    then (Inr acc, self2)
                    else (Inr (insert unique_constraint_attrs seen_unique_constraint_attrs,
                               ad_creative_records @ [new_record]), self2)))))"

fun process_creatives ::
  "world \<Rightarrow> int \<Rightarrow> FetchedCreative list \<Rightarrow>
   AdCreativeRecordUniqueConstraintAttributes set \<times> AdCreativeRecord list \<Rightarrow> retriever \<Rightarrow>
   (exn + AdCreativeRecord list) \<times> retriever" where
  "process_creatives w aid [] acc self = (Inr (snd acc), self)"
| "process_creatives w aid (creative # rest) acc self =
     (case process_creative w aid creative acc self of
        (Inl e, self1) \<Rightarrow> (Inl e, self1)
      | (Inr acc1, self1) \<Rightarrow> process_creatives w aid rest acc1 self1)"

definition process_fetched_ad_creative_data ::
  "world \<Rightarrow> retriever \<Rightarrow> int \<Rightarrow> ScreenshotAndCreatives \<Rightarrow>
   (exn + AdCreativeRecord list option) \<times> retriever" where
  "process_fetched_ad_creative_data w self aid fetched_data =
     (if creatives fetched_data = [] then (Inr None, self)
      else
        (case process_creatives w aid (creatives fetched_data) ({}, []) self of
           (Inl e, self1) \<Rightarrow> (Inl e, self1)
         | (Inr ad_creative_records, self1) \<Rightarrow> (Inr (Some ad_creative_records), self1)))"

subsection \<open>\<^verbatim>\<open>retrieve_ad\<close>\<close>

text \<open>
  The inner \<^verbatim>\<open>try\<close>: a browser timeout or a driver error resets the creative retriever
  and asks once more; whatever the second call raises goes to the outer handlers.
\<close>

definition fetch_with_one_retry ::
  "world \<Rightarrow> retriever \<Rightarrow> int \<Rightarrow> (nat \<times> fetch_outcome) \<times> retriever" where
  "fetch_with_one_retry w self aid =
     (let fetch_time = clock self
      in case call_creative_retriever w self aid of
           (Raises BrowserTimeoutError, self1) \<Rightarrow>
             (let self2 = reset_creative_retriever self1;
                  fetch_time2 = clock self2;
                  (second, self3) = call_creative_retriever w self2 aid
              in ((fetch_time2, second), self3))
         | (Raises WebDriverException, self1) \<Rightarrow>
             (let self2 = reset_creative_retriever self1;
                  fetch_time2 = clock self2;
                  (second, self3) = call_creative_retriever w self2 aid
              in ((fetch_time2, second), self3))
         | (first, self1) \<Rightarrow> ((fetch_time, first), self1))"

text \<open>
  The outer handlers: the status each caught exception leaves, and whether it counts as a
  failed fetch. \<open>None\<close> is an exception that no handler catches.
\<close>

fun status_of_exception :: "exn \<Rightarrow> (SnapshotFetchStatus \<times> bool) option" where
  "status_of_exception RequestException = Some (UNKNOWN, True)"
| "status_of_exception SnapshotNoContentFoundError = Some (NO_CONTENT_FOUND, False)"
| "status_of_exception SnapshotMissingMediaError = Some (NO_CONTENT_FOUND, False)"
| "status_of_exception SnapshotAgeRestrictionError = Some (AGE_RESTRICTION_ERROR, False)"
| "status_of_exception SnapshotIntellectualPropertyViolationError =
     Some (INTELLECTUAL_PROPERTY_VIOLATION_ERROR, False)"
| "status_of_exception SnapshotInvalidIdError = Some (INVALID_ID_ERROR, False)"
| "status_of_exception SnapshotWrongAdArchiveIdError = Some (INVALID_ID_ERROR, False)"
| "status_of_exception SnapshotPermanentlyUnavailableError =
     Some (SNAPSHOT_PERMANENTLY_UNAVAILABLE_ERROR, False)"
| "status_of_exception e = None"

definition retrieve_ad ::
  "world \<Rightarrow> retriever \<Rightarrow> int \<Rightarrow>
   (exn + ScreenshotAndCreatives option \<times> AdSnapshotMetadataRecord) \<times> retriever" where
  "retrieve_ad w self aid =
     (case fetch_with_one_retry w self aid of
        ((fetch_time, Fetched screenshot_and_creatives), self1) \<Rightarrow>
          (Inr (Some screenshot_and_creatives,
                \<lparr>snapshot_archive_id = aid, snapshot_fetch_time = fetch_time,
                 snapshot_fetch_status =
                   (if creatives screenshot_and_creatives \<noteq> [] then SUCCESS
                    else NO_AD_CREATIVES_FOUND)\<rparr>),
           self1\<lparr>num_snapshots_processed := num_snapshots_processed self1 + 1\<rparr>)
      | ((fetch_time, Raises e), self1) \<Rightarrow>
          (case status_of_exception e of
             None \<Rightarrow> (Inl e, self1)
           | Some (fetch_status, failed) \<Rightarrow>
               (Inr (None,
                     \<lparr>snapshot_archive_id = aid, snapshot_fetch_time = fetch_time,
                      snapshot_fetch_status = fetch_status\<rparr>),
                self1\<lparr>num_snapshots_fetch_failed :=
                         (if failed then num_snapshots_fetch_failed self1 + 1
                          else num_snapshots_fetch_failed self1),
                       num_snapshots_processed := num_snapshots_processed self1 + 1\<rparr>)))"

subsection \<open>\<^verbatim>\<open>process_archive_ids\<close>\<close>

text \<open>
  The loop over the archive ids of a chunk, on \<^verbatim>\<open>archive_ids_without_creative_found\<close>,
  \<^verbatim>\<open>snapshot_metadata_records\<close> and \<^verbatim>\<open>ad_creative_records\<close>.
\<close>

type_synonym chunk_acc = "nat \<times> AdSnapshotMetadataRecord list \<times> AdCreativeRecord list"

definition process_archive_id ::
  "world \<Rightarrow> int \<Rightarrow> chunk_acc \<Rightarrow> retriever \<Rightarrow> (exn + chunk_acc) \<times> retriever" where
  "process_archive_id w aid acc self =
     (case acc of (without_creative, metadata_records, creative_records) \<Rightarrow>
      (case retrieve_ad w self aid of
         (Inl e, self1) \<Rightarrow> (Inl e, self1)
       | (Inr (None, metadata_record), self1) \<Rightarrow>
           (Inr (without_creative + 1, metadata_records @ [metadata_record], creative_records),
            self1)
       | (Inr (Some screenshot_and_creatives, metadata_record), self1) \<Rightarrow>
           (case (if truthy (screenshot_binary_data screenshot_and_creatives)
                  then store_snapshot_screenshot self1 aid
                         (case screenshot_binary_data screenshot_and_creatives of
                            Some d \<Rightarrow> d | None \<Rightarrow> [])
                  else (Inr (), self1)) of
              (Inl e, self2) \<Rightarrow> (Inl e, self2)
            | (Inr u, self2) \<Rightarrow>
                if creatives screenshot_and_creatives \<noteq> []
                then
                  (case process_fetched_ad_creative_data w self2 aid screenshot_and_creatives of
                     (Inl e, self3) \<Rightarrow> (Inl e, self3)
                   | (Inr None, self3) \<Rightarrow>
                       (Inr (without_creative, metadata_records @ [metadata_record],
                             creative_records), self3)
                   | (Inr (Some new_ad_creative_records), self3) \<Rightarrow>
                       (Inr (without_creative, metadata_records @ [metadata_record],
                             creative_records @ new_ad_creative_records), self3))
                else
                  (Inr (without_creative + 1, metadata_records @ [metadata_record],
                        creative_records), self2))))"

fun process_archive_ids_loop ::
  "world \<Rightarrow> int list \<Rightarrow> chunk_acc \<Rightarrow> retriever \<Rightarrow> (exn + chunk_acc) \<times> retriever" where
  "process_archive_ids_loop w [] acc self = (Inr acc, self)"
| "process_archive_ids_loop w (aid # rest) acc self =
     (case process_archive_id w aid acc self of
        (Inl e, self1) \<Rightarrow> (Inl e, self1)
      | (Inr acc1, self1) \<Rightarrow> process_archive_ids_loop w rest acc1 self1)"

definition process_archive_ids :: "world \<Rightarrow> retriever \<Rightarrow> int list \<Rightarrow> (exn + unit) \<times> retriever" where
  "process_archive_ids w self archive_ids =
     (case process_archive_ids_loop w archive_ids (0, [], []) self of
        (Inl e, self1) \<Rightarrow> (Inl e, self1)
      | (Inr (without_creative, metadata_records, creative_records), self1) \<Rightarrow>
          (Inr (),
           self1\<lparr>num_ad_creatives_found := num_ad_creatives_found self1 + length creative_records,
                  num_snapshots_without_creative_found :=
                    num_snapshots_without_creative_found self1 + without_creative,
                  trace := trace self1 @ [InsertAdCreativeRecords creative_records,
                                          UpdateAdSnapshotMetadata metadata_records]\<rparr>))"

subsection \<open>The lease loop \<^verbatim>\<open>retreive_and_store_ad_creatives\<close>\<close>

text \<open>\<^verbatim>\<open>chunks\<close>: \<^verbatim>\<open>range\<close> raises \<^verbatim>\<open>ValueError\<close> on a step of zero.\<close>

function chunks_from :: "nat \<Rightarrow> 'a list \<Rightarrow> 'a list list" where
  "chunks_from chunk_size original_list =
     (if chunk_size = 0 \<or> original_list = [] then []
      else take chunk_size original_list # chunks_from chunk_size (drop chunk_size original_list))"
  by pat_completeness auto
termination
  by (relation "measure (\<lambda>(n, xs). length xs)") auto

declare chunks_from.simps [simp del]

definition chunks :: "'a list \<Rightarrow> nat \<Rightarrow> exn + 'a list list" where
  "chunks original_list chunk_size =
     (if chunk_size = 0 then Inl ValueError else Inr (chunks_from chunk_size original_list))"

text \<open>
  \<^verbatim>\<open>get_archive_id_batch_or_wait_until_available\<close>: an empty answer sleeps an hour and
  asks again. \<open>None\<close> means that the store had no work as far as its answers are
  scripted: the pipeline is still waiting.
\<close>

fun wait_for_batch ::
  "(int \<times> int list) option list \<Rightarrow> retriever \<Rightarrow> (int \<times> int list) option \<times> retriever" where
  "wait_for_batch [] self = (None, self\<lparr>lease_answers := []\<rparr>)"
| "wait_for_batch (Some batch_and_archive_ids # rest) self =
     (Some batch_and_archive_ids, self\<lparr>lease_answers := rest\<rparr>)"
| "wait_for_batch (None # rest) self =
     wait_for_batch rest
       (reset_start_time
          (self\<lparr>clock := clock self + NO_AVAILABLE_WORK_SLEEP_TIME,
                trace := trace self @ [Sleep NO_AVAILABLE_WORK_SLEEP_TIME]\<rparr>))"

definition get_archive_id_batch_or_wait_until_available ::
  "retriever \<Rightarrow> (int \<times> int list) option \<times> retriever" where
  "get_archive_id_batch_or_wait_until_available self = wait_for_batch (lease_answers self) self"

fun process_chunks :: "world \<Rightarrow> int list list \<Rightarrow> retriever \<Rightarrow> (exn + unit) \<times> retriever" where
  "process_chunks w [] self = (Inr (), self)"
| "process_chunks w (archive_id_chunk # rest) self =
     (case process_archive_ids w self archive_id_chunk of
        (Inl e, self1) \<Rightarrow> (Inl e, self1)
      | (Inr u, self1) \<Rightarrow> process_chunks w rest self1)"

text \<open>
  The inner \<^verbatim>\<open>try\<close> of the loop body: every exception releases the batch and is raised
  again.
\<close>

definition process_batch :: "world \<Rightarrow> retriever \<Rightarrow> int list \<Rightarrow> (exn + unit) \<times> retriever" where
  "process_batch w self archive_id_batch =
     (case (case chunks archive_id_batch (commit_to_db_every_n_processed self) of
              Inl e \<Rightarrow> (Inl e, self)
            | Inr cs \<Rightarrow> process_chunks w cs self) of
        (Inl e, self1) \<Rightarrow>
          (Inl e, self1\<lparr>trace := trace self1 @
                          [ReleaseUncompletedFetchBatch (current_batch_id self1)]\<rparr>)
      | (Inr u, self1) \<Rightarrow> (Inr u, self1))"

text \<open>
  One turn of \<^verbatim>\<open>while True\<close>, on the number of snapshots processed since the browser
  was last reset: the loop goes on, is still waiting for work, or ends on an exception.
\<close>

datatype loop_result = Continue nat | Waiting | Raised exn

definition rate_limit_sleep :: "exn \<Rightarrow> nat option \<Rightarrow> nat \<Rightarrow> retriever \<Rightarrow> loop_result \<times> retriever" where
  "rate_limit_sleep error wait_before_next_batch_seconds since_reset self =
     (let suggested_sleep_time =
            (case wait_before_next_batch_seconds of
               None \<Rightarrow> TOO_MANY_REQUESTS_SLEEP_TIME
             | Some t \<Rightarrow> t)
      in (Continue since_reset,
          self\<lparr>clock := clock self + suggested_sleep_time,
                trace := trace self @ [SlackMessage error suggested_sleep_time,
                                       Sleep suggested_sleep_time]\<rparr>))"

definition lease_loop_body :: "world \<Rightarrow> nat \<Rightarrow> retriever \<Rightarrow> loop_result \<times> retriever" where
  "lease_loop_body w since_reset self =
     (case get_archive_id_batch_or_wait_until_available self of
        (None, self1) \<Rightarrow> (Waiting, self1)
      | (Some (batch_id, archive_id_batch), self1) \<Rightarrow>
          (case process_batch w (self1\<lparr>current_batch_id := Some batch_id\<rparr>) archive_id_batch of
             (Inr u, self2) \<Rightarrow>
               (let processed = since_reset + length archive_id_batch;
                    self3 = self2\<lparr>trace := trace self2 @
                                    [MarkFetchBatchCompleted (current_batch_id self2)]\<rparr>
                in if processed \<ge> RESET_BROWSER_AFTER_PROCESSING_N_SNAPSHOTS
                   then (Continue 0, reset_creative_retriever self3)
                   else (Continue processed, self3))
           | (Inl (TooManyRequestsError wait), self2) \<Rightarrow>
               rate_limit_sleep (TooManyRequestsError wait) wait since_reset self2
           | (Inl (EndBatchCrawlerException wait), self2) \<Rightarrow>
               rate_limit_sleep (EndBatchCrawlerException wait) wait since_reset self2
           | (Inl error, self2) \<Rightarrow> (Raised error, self2)))"

text \<open>The loop itself never ends by itself; \<open>fuel\<close> bounds the turns that are followed.\<close>

fun lease_loop :: "nat \<Rightarrow> world \<Rightarrow> nat \<Rightarrow> retriever \<Rightarrow> loop_result \<times> retriever" where
  "lease_loop 0 w since_reset self = (Continue since_reset, self)"
| "lease_loop (Suc fuel) w since_reset self =
     (case lease_loop_body w since_reset self of
        (Continue n, self1) \<Rightarrow> lease_loop fuel w n self1
      | (other, self1) \<Rightarrow> (other, self1))"

definition retreive_and_store_ad_creatives ::
  "nat \<Rightarrow> world \<Rightarrow> retriever \<Rightarrow> loop_result \<times> retriever" where
  "retreive_and_store_ad_creatives fuel w self =
     lease_loop fuel w 0 (reset_start_time (reset_creative_retriever self))"

section \<open>Observations and a small world to run the pipeline in\<close>





definition wait_before_next_batch_seconds :: "exn \<Rightarrow> nat option" where
  "wait_before_next_batch_seconds e =
     (case e of TooManyRequestsError wait \<Rightarrow> wait
              | EndBatchCrawlerException wait \<Rightarrow> wait
              | _ \<Rightarrow> None)"


definition empty_bucket :: bucket where
  "empty_bucket = \<lparr>objects = Map.empty, num_uploads = 0, faults = []\<rparr>"

definition example_retriever :: retriever where
  "example_retriever =
     \<lparr>ad_creative_images_bucket_client = empty_bucket,
      ad_creative_videos_bucket_client = empty_bucket,
      archive_screenshots_bucket_client = empty_bucket,
      max_video_download_size = DEFAULT_MAX_VIDEO_DOWNLOAD_SIZE,
      num_snapshots_processed = 0,
      num_snapshots_fetch_failed = 0,
      num_ad_creatives_found = 0,
      num_snapshots_without_creative_found = 0,
      num_image_download_success = 0,
      num_image_download_failure = 0,
      num_image_uploade_to_gcs_bucket = 0,
      num_video_download_success = 0,
      num_video_download_failure = 0,
      num_video_uploade_to_gcs_bucket = 0,
      current_batch_id = None,
      commit_to_db_every_n_processed = 20,
      start_time = None,
      extractor_calls = 0,
      browser_resets = 0,
      clock = 0,
      lease_answers = [],
      trace = []\<rparr>"

text \<open>
  Three videos: one that announces 10 GB, one without a content length, one with a content
  length that is no number. One creative with a picture and the 10 GB video.
\<close>

definition example_requests_get :: "string \<Rightarrow> http_result" where
  "example_requests_get video_url =
     (if video_url = ''http://v/big''
      then Responded \<lparr>status_code = 200, headers = [(''Content-Length'', ''10737418240'')],
                      content = Some ''v''\<rparr>
      else if video_url = ''http://v/nolen''
      then Responded \<lparr>status_code = 200, headers = [(''Server'', ''x'')], content = Some ''v''\<rparr>
      else if video_url = ''http://v/nan''
      then Responded \<lparr>status_code = 200, headers = [(''content-length'', ''12a'')],
                      content = Some ''v''\<rparr>
      else RequestFailed)"

definition example_creative :: FetchedCreative where
  "example_creative =
     \<lparr>creative_body = Some ''hello world'',
      creative_image = Some \<lparr>image_url = ''http://i/1'', image_binary_data = ''png''\<rparr>,
      creative_video_url = Some ''http://v/big'',
      creative_link_attributes = None\<rparr>"

definition text_only_creative :: FetchedCreative where
  "text_only_creative =
     \<lparr>creative_body = Some ''hello world'', creative_image = None,
      creative_video_url = None, creative_link_attributes = None\<rparr>"

text \<open>
  The extractor of the example: archive id 1 has the creative above; 2 fails with a
  request exception; 3 and 4 have the same text-only creative, 4 has it twice; 5 hits the
  rate limit with no suggested wait; any other id does not exist.
\<close>

definition example_creative_retriever :: "nat \<Rightarrow> int \<Rightarrow> fetch_outcome" where
  "example_creative_retriever n aid =
     (if aid = 1 then Fetched \<lparr>screenshot_binary_data = Some ''shot'',
                               creatives = [example_creative]\<rparr>
      else if aid = 2 then Raises RequestException
      else if aid = 3 then Fetched \<lparr>screenshot_binary_data = None,
                                    creatives = [text_only_creative]\<rparr>
      else if aid = 4 then Fetched \<lparr>screenshot_binary_data = None,
                                    creatives = [text_only_creative, text_only_creative]\<rparr>
      else if aid = 5 then Raises (TooManyRequestsError None)
      else Raises SnapshotInvalidIdError)"

definition example_world :: world where
  "example_world =
     \<lparr>creative_retriever = example_creative_retriever,
      requests_get = example_requests_get,
      get_image_dhash = (\<lambda>b. if b = [] then None else Some ''0123456789abcdef0123456789abcdef''),
      sha256_hexdigest = (\<lambda>b. ''sha256:'' @ b),
      hash_ad_creative_text = length,
      encode_utf32 = (\<lambda>t. t),
      detect = (\<lambda>t. Some ''en'')\<rparr>"

text \<open>The creative records handed to the store for upsert by the events of a trace, in order.\<close>

fun emitted_creative_records :: "event list \<Rightarrow> AdCreativeRecord list" where
  "emitted_creative_records [] = []"
| "emitted_creative_records (InsertAdCreativeRecords rs # evs) = rs @ emitted_creative_records evs"
| "emitted_creative_records (ev # evs) = emitted_creative_records evs"

text \<open>The snapshot metadata records handed to the store by the events of a trace.\<close>

fun emitted_metadata_records :: "event list \<Rightarrow> AdSnapshotMetadataRecord list" where
  "emitted_metadata_records [] = []"
| "emitted_metadata_records (UpdateAdSnapshotMetadata ms # evs) = ms @ emitted_metadata_records evs"
| "emitted_metadata_records (ev # evs) = emitted_metadata_records evs"

definition is_chunk_write :: "event \<Rightarrow> bool" where
  "is_chunk_write ev =
     (case ev of InsertAdCreativeRecords rs \<Rightarrow> True
               | UpdateAdSnapshotMetadata ms \<Rightarrow> True
               | _ \<Rightarrow> False)"

text \<open>
  The invariant of the loop over the creatives of one archive id: the set holds exactly
  the constraint tuples of the records made so far, which are pairwise different and all
  of this archive id.
\<close>

definition tuples_invariant ::
  "int \<Rightarrow> AdCreativeRecordUniqueConstraintAttributes set \<times> AdCreativeRecord list \<Rightarrow> bool" where
  "tuples_invariant aid acc =
     (fst acc = set (map unique_constraint_attrs_of (snd acc)) \<and>
      distinct (map unique_constraint_attrs_of (snd acc)) \<and>
      (\<forall>r \<in> set (snd acc). archive_id r = aid))"

text \<open>
  A metadata record is explained when its status is terminal, or is \<^verbatim>\<open>UNKNOWN\<close> and a call
  of the extractor for its archive id raised a request exception.
\<close>

definition status_explained :: "world \<Rightarrow> AdSnapshotMetadataRecord \<Rightarrow> bool" where
  "status_explained w m =
     (snapshot_fetch_status m = UNKNOWN \<longrightarrow>
        (\<exists>n. creative_retriever w n (snapshot_archive_id m) = Raises RequestException))"

text \<open>The events a call added to the trace it started from.\<close>

definition new_events :: "retriever \<Rightarrow> retriever \<Rightarrow> event list" where
  "new_events before after = drop (length (trace before)) (trace after)"

section \<open>Path derivation: proofs\<close>

lemma filter_mod4_upt:
  "filter (\<lambda>x. x mod 4 = 0) [0 ..< m] = map (\<lambda>i. 4 * i) [0 ..< (m + 3) div 4]"
proof (induction m)
  case 0
  then show ?case by simp
next
  case (Suc m)
  show ?case
  proof (cases "m mod 4 = 0")
    case True
    have a: "(Suc m + 3) div 4 = Suc ((m + 3) div 4)" using True by presburger
    have b: "m = 4 * ((m + 3) div 4)" using True by presburger
    show ?thesis using Suc True a b by simp
  next
    case False
    have "(Suc m + 3) div 4 = (m + 3) div 4"
      using False by presburger
    then show ?thesis using Suc False by simp
  qed
qed

lemma foldl_path_join2:
  "acc \<noteq> [] \<Longrightarrow> last acc \<noteq> CHR ''/'' \<Longrightarrow>
   \<forall>p \<in> set ps. p \<noteq> [] \<and> CHR ''/'' \<notin> set p \<Longrightarrow>
   foldl path_join2 acc ps = acc @ concat (map (\<lambda>p. ''/'' @ p) ps)"
proof (induction ps arbitrary: acc)
  case Nil
  then show ?case by simp
next
  case (Cons p ps)
  have p: "p \<noteq> []" "CHR ''/'' \<notin> set p" using Cons.prems by auto
  then have hd: "hd p \<noteq> CHR ''/''" by (cases p) auto
  have lastp: "last p \<noteq> CHR ''/''" using p by (metis last_in_set)
  have step: "path_join2 acc p = acc @ ''/'' @ p"
    using Cons.prems hd by (simp add: path_join2_def)
  have "foldl path_join2 (acc @ ''/'' @ p) ps =
        (acc @ ''/'' @ p) @ concat (map (\<lambda>p. ''/'' @ p) ps)"
    using Cons.prems p lastp by (intro Cons.IH) auto
  then show ?case using step by simp
qed

lemma video_hash_dirs_eq:
  "video_hash_dirs h = map (\<lambda>i. take 4 (drop (4 * i) h)) [0 ..< (length h - 1) div 4]"
proof -
  have "nat (int (length h) - 4) = length h - 4" by simp
  then have "(nat (int (length h) - 4) + 3) div 4 = (length h - 1) div 4"
    by (cases "4 \<le> length h") auto
  then show ?thesis
    by (simp add: video_hash_dirs_def py_range0_def py_slice_def
        VIDEO_HASH_PATH_DIR_NAME_LENGTH_def filter_mod4_upt comp_def)
qed

lemma join_dirs_concat:
  "d @ concat (map ((@) ''/'') (ds @ [b])) = concat (map (\<lambda>d. d @ ''/'') (d # ds)) @ b"
  by (induction ds arbitrary: d) auto

text \<open>
  C7 (as the code has it). For a hash without a slash (every hex digest), the video bucket
  path is the hash cut into 4-character directories at the offsets \<open>0, 4, 8, \<dots>\<close> strictly
  below \<open>len - 4\<close>, followed by \<open>{hash}.mp4\<close>: there are \<open>(len - 1) div 4\<close>
  directories, so the last segment is always left out, also when it is a full one. A
  64-character hash gives fifteen directories, \<open>hash[0:4]\<close> to \<open>hash[56:60]\<close>.
\<close>

theorem video_path_omits_last_segment:
  assumes "CHR ''/'' \<notin> set h"
  shows "make_video_sha256_hash_file_path h =
     concat (map (\<lambda>i. take 4 (drop (4 * i) h) @ ''/'') [0 ..< (length h - 1) div 4])
       @ h @ ''.mp4''"
proof -
  let ?dirs = "video_hash_dirs h"
  let ?base = "h @ ''.mp4''"
  have seg: "\<forall>p \<in> set ?dirs. p \<noteq> [] \<and> CHR ''/'' \<notin> set p"
  proof
    fix p assume "p \<in> set ?dirs"
    then obtain i where i: "i < (length h - 1) div 4" "p = take 4 (drop (4 * i) h)"
      by (auto simp: video_hash_dirs_eq)
    have "4 * i < length h" using i(1) by arith
    then have "p \<noteq> []" using i(2) by simp
    moreover have "set p \<subseteq> set h" using i(2)
      by (metis set_drop_subset set_take_subset subset_trans)
    ultimately show "p \<noteq> [] \<and> CHR ''/'' \<notin> set p" using assms by auto
  qed
  have base: "?base \<noteq> [] \<and> CHR ''/'' \<notin> set ?base" using assms by simp
  have conc: "concat (map (\<lambda>d. d @ ''/'') ?dirs) =
      concat (map (\<lambda>i. take 4 (drop (4 * i) h) @ ''/'') [0 ..< (length h - 1) div 4])"
    by (simp add: video_hash_dirs_eq comp_def)
  show ?thesis
  proof (cases ?dirs)
    case Nil
    then show ?thesis using conc
      by (simp add: make_video_sha256_hash_file_path_def os_path_join_def)
  next
    case (Cons d ds)
    have d: "d \<noteq> []" "CHR ''/'' \<notin> set d" using seg Cons by auto
    then have ld: "last d \<noteq> CHR ''/''" by (metis last_in_set)
    have all: "\<forall>p \<in> set (ds @ [?base]). p \<noteq> [] \<and> CHR ''/'' \<notin> set p"
      using seg Cons base by auto
    have "make_video_sha256_hash_file_path h = foldl path_join2 d (ds @ [?base])"
      using Cons by (simp add: make_video_sha256_hash_file_path_def os_path_join_def)
    also have "\<dots> = d @ concat (map ((@) ''/'') (ds @ [?base]))"
      by (rule foldl_path_join2 [OF d(1) ld all])
    also have "\<dots> = concat (map (\<lambda>d. d @ ''/'') (d # ds)) @ ?base"
      by (rule join_dirs_concat)
    finally show ?thesis using conc Cons by simp
  qed
qed

theorem video_path_omits_last_segment_witness:
  "CHR ''/'' \<notin> set sha256_of_empty \<and>
   length sha256_of_empty = 64 \<and>
   make_video_sha256_hash_file_path sha256_of_empty =
     concat (map (\<lambda>i. take 4 (drop (4 * i) sha256_of_empty) @ ''/'') [0 ..< 15])
       @ sha256_of_empty @ ''.mp4''"
proof -
  have h: "CHR ''/'' \<notin> set sha256_of_empty" by (simp add: sha256_of_empty_def)
  have l: "length sha256_of_empty = 64" by (simp add: sha256_of_empty_def)
  show ?thesis using h l video_path_omits_last_segment [OF h] by simp
qed

text \<open>
  C7 as stated fails: on the SHA-256 of the empty input the code makes fifteen
  directories, the specification's wording sixteen, and the two paths differ.
\<close>

theorem video_path_sixteen_levels_counterexample:
  "length (video_hash_dirs sha256_of_empty) = 15 \<and>
   length (spec_video_hash_dirs sha256_of_empty) = 16 \<and>
   make_video_sha256_hash_file_path sha256_of_empty \<noteq> spec_video_hash_file_path sha256_of_empty"
  by code_simp


section \<open>Object store: proofs\<close>







section \<open>\<^verbatim>\<open>download_video\<close>: proofs\<close>

lemma store_video_frame:
  "store_video_in_google_bucket self h b = (r, self1) \<Longrightarrow>
   num_video_download_failure self1 = num_video_download_failure self \<and>
   num_video_download_success self1 = num_video_download_success self \<and>
   max_video_download_size self1 = max_video_download_size self \<and>
   trace self1 = trace self \<and> current_batch_id self1 = current_batch_id self"
  by (auto simp: store_video_in_google_bucket_def Let_def split: prod.splits sum.splits)







section \<open>The loop over the creatives: proofs\<close>

lemma store_image_frame:
  "store_image_in_google_bucket self h b = (r, self1) \<Longrightarrow>
   max_video_download_size self1 = max_video_download_size self \<and>
   num_video_download_failure self1 = num_video_download_failure self \<and>
   trace self1 = trace self \<and> current_batch_id self1 = current_batch_id self"
  by (auto simp: store_image_in_google_bucket_def Let_def split: prod.splits sum.splits)

lemma creative_image_fields_frame:
  "creative_image_fields w self creative = (r, self1) \<Longrightarrow>
   max_video_download_size self1 = max_video_download_size self \<and>
   num_video_download_failure self1 = num_video_download_failure self \<and>
   trace self1 = trace self \<and> current_batch_id self1 = current_batch_id self"
  by (auto simp: creative_image_fields_def Let_def
      split: option.splits prod.splits sum.splits dest!: store_image_frame)






section \<open>Chunks and batches: what they add to the trace\<close>

lemma download_video_frame:
  "download_video w self aid u = (r, self1) \<Longrightarrow>
   max_video_download_size self1 = max_video_download_size self \<and> trace self1 = trace self \<and>
   current_batch_id self1 = current_batch_id self"
  by (auto simp: download_video_def Let_def
      split: http_result.splits if_splits option.splits prod.splits sum.splits
      dest!: store_video_frame)

lemma creative_video_fields_frame:
  "creative_video_fields w self aid c = (r, self1) \<Longrightarrow>
   max_video_download_size self1 = max_video_download_size self \<and> trace self1 = trace self \<and>
   current_batch_id self1 = current_batch_id self"
  by (auto simp: creative_video_fields_def
      split: if_splits option.splits prod.splits sum.splits dest!: download_video_frame)

lemma archive_id_make_record [simp]:
  "archive_id (make_ad_creative_record aid c tf imf vf) = aid"
  by (cases tf; cases imf; cases vf) (auto simp: make_ad_creative_record_def)

lemma process_creative_step:
  assumes "process_creative w aid c (seen, recs) self = (Inr (seen', recs'), self1)"
  shows "(seen' = seen \<and> recs' = recs) \<or>
         (\<exists>r. archive_id r = aid \<and> unique_constraint_attrs_of r \<notin> seen \<and>
              seen' = insert (unique_constraint_attrs_of r) seen \<and> recs' = recs @ [r])"
  using assms
  by (auto simp: process_creative_def Let_def
      split: prod.splits sum.splits option.splits if_splits)

lemma process_creative_frame:
  assumes "process_creative w aid c acc self = (r, self1)"
  shows "trace self1 = trace self \<and> current_batch_id self1 = current_batch_id self"
proof -
  obtain seen recs where acc: "acc = (seen, recs)" by (cases acc)
  obtain ri s1 where i: "creative_image_fields w self c = (ri, s1)"
    by (cases "creative_image_fields w self c")
  note f1 = creative_image_fields_frame [OF i]
  obtain rv s2 where v: "creative_video_fields w s1 aid c = (rv, s2)"
    by (cases "creative_video_fields w s1 aid c")
  note f2 = creative_video_fields_frame [OF v]
  show ?thesis using assms acc i v f1 f2
    by (auto simp: process_creative_def Let_def
        split: prod.splits sum.splits option.splits if_splits)
qed

lemma process_creatives_distinct:
  "process_creatives w aid cs acc self = (Inr out, self1) \<Longrightarrow> tuples_invariant aid acc \<Longrightarrow>
   distinct (map unique_constraint_attrs_of out) \<and> (\<forall>r \<in> set out. archive_id r = aid)"
proof (induction cs arbitrary: acc self)
  case Nil
  then show ?case by (simp add: tuples_invariant_def)
next
  case (Cons c cs)
  obtain r s1 where st: "process_creative w aid c acc self = (r, s1)"
    by (cases "process_creative w aid c acc self")
  show ?case
  proof (cases r)
    case (Inl e)
    then show ?thesis using Cons.prems st by simp
  next
    case (Inr acc1)
    obtain seen recs where acc: "acc = (seen, recs)" by (cases acc)
    obtain seen1 recs1 where acc1: "acc1 = (seen1, recs1)" by (cases acc1)
    have "tuples_invariant aid acc1"
      using process_creative_step [OF st [unfolded acc Inr acc1]] Cons.prems(2) acc acc1
      by (auto simp: tuples_invariant_def)
    moreover have "process_creatives w aid cs acc1 s1 = (Inr out, self1)"
      using Cons.prems(1) st Inr by simp
    ultimately show ?thesis by (rule Cons.IH [rotated])
  qed
qed

lemma process_creatives_frame:
  "process_creatives w aid cs acc self = (r, self1) \<Longrightarrow>
   trace self1 = trace self \<and> current_batch_id self1 = current_batch_id self"
proof (induction cs arbitrary: acc self)
  case Nil
  then show ?case by simp
next
  case (Cons c cs)
  obtain r1 s1 where st: "process_creative w aid c acc self = (r1, s1)"
    by (cases "process_creative w aid c acc self")
  note f = process_creative_frame [OF st]
  show ?case
  proof (cases r1)
    case (Inl e)
    then show ?thesis using Cons.prems st f by simp
  next
    case (Inr acc1)
    then have "process_creatives w aid cs acc1 s1 = (r, self1)" using Cons.prems st by simp
    from Cons.IH [OF this] show ?thesis using f by simp
  qed
qed

lemma process_fetched_distinct:
  assumes "process_fetched_ad_creative_data w self aid d = (Inr (Some recs), self1)"
  shows "distinct (map unique_constraint_attrs_of recs) \<and> (\<forall>r \<in> set recs. archive_id r = aid)"
proof -
  have "process_creatives w aid (creatives d) ({}, []) self = (Inr recs, self1)"
    using assms
    by (auto simp: process_fetched_ad_creative_data_def split: if_splits prod.splits sum.splits)
  then show ?thesis
    by (rule process_creatives_distinct) (simp add: tuples_invariant_def)
qed

lemma process_fetched_frame:
  "process_fetched_ad_creative_data w self aid d = (r, self1) \<Longrightarrow>
   trace self1 = trace self \<and> current_batch_id self1 = current_batch_id self"
  by (auto simp: process_fetched_ad_creative_data_def
      split: if_splits prod.splits sum.splits dest!: process_creatives_frame)

lemma fetch_with_one_retry_frame:
  "fetch_with_one_retry w self aid = (r, self1) \<Longrightarrow>
   trace self1 = trace self \<and> current_batch_id self1 = current_batch_id self"
  by (auto simp: fetch_with_one_retry_def call_creative_retriever_def reset_creative_retriever_def
      Let_def split: fetch_outcome.splits exn.splits prod.splits)

lemma retrieve_ad_frame:
  "retrieve_ad w self aid = (r, self1) \<Longrightarrow>
   trace self1 = trace self \<and> current_batch_id self1 = current_batch_id self"
  by (auto simp: retrieve_ad_def
      split: fetch_outcome.splits prod.splits option.splits dest!: fetch_with_one_retry_frame)

lemma fetch_with_one_retry_outcome:
  "fetch_with_one_retry w self aid = ((t, outcome), self1) \<Longrightarrow>
   \<exists>n. creative_retriever w n aid = outcome"
  by (auto simp: fetch_with_one_retry_def call_creative_retriever_def Let_def
      split: fetch_outcome.splits exn.splits prod.splits)

lemma status_of_exception_UNKNOWN:
  "status_of_exception e = Some (UNKNOWN, failed) \<Longrightarrow> e = RequestException"
  by (cases e) auto

lemma retrieve_ad_record:
  assumes "retrieve_ad w self aid = (Inr (sc, m), self1)"
  shows "snapshot_archive_id m = aid \<and> status_explained w m"
proof -
  obtain t outcome s0 where f: "fetch_with_one_retry w self aid = ((t, outcome), s0)"
    by (cases "fetch_with_one_retry w self aid") auto
  from fetch_with_one_retry_outcome [OF f]
  obtain n where n: "creative_retriever w n aid = outcome" by blast
  show ?thesis
  proof (cases outcome)
    case (Fetched d)
    then show ?thesis using assms f
      by (auto simp: retrieve_ad_def status_explained_def split: if_splits)
  next
    case (Raises e)
    then obtain st failed where st: "status_of_exception e = Some (st, failed)"
      "m = \<lparr>snapshot_archive_id = aid, snapshot_fetch_time = t, snapshot_fetch_status = st\<rparr>"
      using assms f by (auto simp: retrieve_ad_def split: option.splits)
    have "st = UNKNOWN \<longrightarrow> e = RequestException"
      using st(1) status_of_exception_UNKNOWN by blast
    then show ?thesis using st(2) n Raises by (auto simp: status_explained_def)
  qed
qed

lemma store_snapshot_screenshot_frame:
  "store_snapshot_screenshot self aid b = (r, self1) \<Longrightarrow>
   trace self1 = trace self \<and> current_batch_id self1 = current_batch_id self"
  by (auto simp: store_snapshot_screenshot_def Let_def split: prod.splits sum.splits)


lemma process_archive_id_effect:
  assumes "process_archive_id w aid (n, ms, crs) self = (Inr acc1, self1)"
  shows "\<exists>k m new. acc1 = (n + k, ms @ [m], crs @ new) \<and> snapshot_archive_id m = aid \<and>
           status_explained w m \<and> distinct (map unique_constraint_attrs_of new) \<and> (\<forall>r \<in> set new. archive_id r = aid) \<and>
           trace self1 = trace self \<and>
           (\<forall>n0 ms0 crs0. process_archive_id w aid (n0, ms0, crs0) self =
                (Inr (n0 + k, ms0 @ [m], crs0 @ new), self1))"
proof -
  obtain r0 s0 where ra: "retrieve_ad w self aid = (r0, s0)" by (cases "retrieve_ad w self aid")
  note f0 = retrieve_ad_frame [OF ra]
  show ?thesis
  proof (cases r0)
    case (Inl e)
    then show ?thesis using assms ra by (simp add: process_archive_id_def)
  next
    case (Inr p)
    obtain sc m where p: "p = (sc, m)" by (cases p)
    have mid: "snapshot_archive_id m = aid" "status_explained w m"
      using retrieve_ad_record ra Inr p by blast+
    show ?thesis
    proof (cases sc)
      case None
      then show ?thesis using assms ra Inr p mid f0
        by (auto simp: process_archive_id_def intro!: exI [of _ 1] exI [of _ "[]"])
    next
      case (Some d)
      let ?shot = "if truthy (screenshot_binary_data d)
                   then store_snapshot_screenshot s0 aid
                          (case screenshot_binary_data d of Some b \<Rightarrow> b | None \<Rightarrow> [])
                   else (Inr (), s0)"
      obtain r1 s1 where sh: "?shot = (r1, s1)" by (cases ?shot)
      have f1: "trace s1 = trace s0"
        using sh store_snapshot_screenshot_frame by (fastforce split: if_splits)
      show ?thesis
      proof (cases r1)
        case (Inl e)
        then show ?thesis using assms ra Inr p Some sh
          by (simp add: process_archive_id_def)
      next
        case shot_ok: (Inr u)
        show ?thesis
        proof (cases "creatives d = []")
          case True
          then show ?thesis using assms ra Inr p Some sh shot_ok mid f0 f1
            by (auto simp: process_archive_id_def intro!: exI [of _ 1] exI [of _ "[]"])
        next
          case False
          obtain r2 s2 where pf: "process_fetched_ad_creative_data w s1 aid d = (r2, s2)"
            by (cases "process_fetched_ad_creative_data w s1 aid d")
          note f2 = process_fetched_frame [OF pf]
          show ?thesis
          proof (cases r2)
            case (Inl e)
            then show ?thesis using assms ra Inr p Some sh shot_ok False pf
              by (simp add: process_archive_id_def)
          next
            case got: (Inr new_opt)
            show ?thesis
            proof (cases new_opt)
              case None
              then show ?thesis using assms ra Inr p Some sh shot_ok False pf got mid f0 f1 f2
                by (auto simp: process_archive_id_def intro!: exI [of _ 0] exI [of _ "[]"])
            next
              case (Some new)
              note d = process_fetched_distinct [OF pf [unfolded got Some]]
              show ?thesis
                using assms ra Inr p \<open>sc = Some d\<close> sh shot_ok False pf got Some mid f0 f1 f2 d
                by (auto simp: process_archive_id_def intro!: exI [of _ 0] exI [of _ new])
            qed
          qed
        qed
      qed
    qed
  qed
qed

lemma process_archive_id_frame:
  assumes "process_archive_id w aid acc self = (r, self1)"
  shows "trace self1 = trace self \<and> current_batch_id self1 = current_batch_id self"
proof -
  obtain ra s0 where ra: "retrieve_ad w self aid = (ra, s0)" by (cases "retrieve_ad w self aid")
  note f0 = retrieve_ad_frame [OF ra]
  show ?thesis using assms ra f0
    by (auto simp: process_archive_id_def
        split: prod.splits sum.splits option.splits if_splits
        dest!: store_snapshot_screenshot_frame process_fetched_frame)
qed


lemma distinct_tuples_append:
  assumes "distinct (map unique_constraint_attrs_of xs)" "distinct (map unique_constraint_attrs_of ys)"
    "archive_id ` set xs \<inter> archive_id ` set ys = {}"
  shows "distinct (map unique_constraint_attrs_of (xs @ ys))"
proof -
  have "unique_constraint_attrs_of x \<noteq> unique_constraint_attrs_of y"
    if "x \<in> set xs" "y \<in> set ys" for x y
  proof
    assume "unique_constraint_attrs_of x = unique_constraint_attrs_of y"
    then have "archive_id x = archive_id y" by (simp add: unique_constraint_attrs_of_def)
    then show False using that assms(3) by auto
  qed
  then have "unique_constraint_attrs_of ` set xs \<inter> unique_constraint_attrs_of ` set ys = {}"
    by blast
  then show ?thesis using assms(1,2) by simp
qed

lemma process_archive_ids_loop_effect:
  "process_archive_ids_loop w ids (n, ms, crs) self = (Inr acc1, self1) \<Longrightarrow>
   \<exists>k ms1 new. acc1 = (n + k, ms @ ms1, crs @ new) \<and> map snapshot_archive_id ms1 = ids \<and>
      (\<forall>m \<in> set ms1. status_explained w m) \<and>
      (distinct ids \<longrightarrow> distinct (map unique_constraint_attrs_of new)) \<and>
      archive_id ` set new \<subseteq> set ids \<and> trace self1 = trace self"
proof (induction ids arbitrary: n ms crs self)
  case Nil
  then have "acc1 = (n + 0, ms @ [], crs @ [])" "trace self1 = trace self" by auto
  then show ?case by (intro exI [of _ 0] exI [of _ "[]"]) simp
next
  case (Cons aid rest)
  obtain r s1 where st: "process_archive_id w aid (n, ms, crs) self = (r, s1)"
    by (cases "process_archive_id w aid (n, ms, crs) self")
  show ?case
  proof (cases r)
    case (Inl e)
    then show ?thesis using Cons.prems st by simp
  next
    case (Inr acc)
    from process_archive_id_effect [OF st [unfolded Inr]]
    obtain k m new where e: "acc = (n + k, ms @ [m], crs @ new)" "snapshot_archive_id m = aid"
      "distinct (map unique_constraint_attrs_of new)" "\<forall>r \<in> set new. archive_id r = aid"
      "trace s1 = trace self" "status_explained w m" by blast
    have "process_archive_ids_loop w rest (n + k, ms @ [m], crs @ new) s1 = (Inr acc1, self1)"
      using Cons.prems st Inr e(1) by simp
    from Cons.IH [OF this]
    obtain k2 ms2 new2 where i: "acc1 = (n + k + k2, (ms @ [m]) @ ms2, (crs @ new) @ new2)"
      "map snapshot_archive_id ms2 = rest"
      "distinct rest \<longrightarrow> distinct (map unique_constraint_attrs_of new2)"
      "archive_id ` set new2 \<subseteq> set rest" "trace self1 = trace s1"
      "\<forall>m \<in> set ms2. status_explained w m" by blast
    have d: "distinct (aid # rest) \<longrightarrow> distinct (map unique_constraint_attrs_of (new @ new2))"
    proof
      assume di: "distinct (aid # rest)"
      have "archive_id ` set new \<inter> archive_id ` set new2 = {}"
        using e(4) i(4) di by auto
      then show "distinct (map unique_constraint_attrs_of (new @ new2))"
        using distinct_tuples_append e(3) i(3) di by auto
    qed
    have sub: "archive_id ` set (new @ new2) \<subseteq> set (aid # rest)" using e(4) i(4) by auto
    have a1: "acc1 = (n + (k + k2), ms @ (m # ms2), crs @ (new @ new2))" using i(1) by simp
    have a2: "map snapshot_archive_id (m # ms2) = aid # rest" using e(2) i(2) by simp
    have a3: "trace self1 = trace self" using e(5) i(5) by simp
    have a4: "\<forall>x \<in> set (m # ms2). status_explained w x" using e(6) i(6) by simp
    show ?thesis
      by (rule exI [of _ "k + k2"], rule exI [of _ "m # ms2"], rule exI [of _ "new @ new2"])
        (intro conjI a1 a2 a3 a4 d sub)
  qed
qed

lemma process_archive_ids_loop_frame:
  "process_archive_ids_loop w ids acc self = (r, self1) \<Longrightarrow>
   trace self1 = trace self \<and> current_batch_id self1 = current_batch_id self"
proof (induction ids arbitrary: acc self)
  case Nil
  then show ?case by simp
next
  case (Cons aid rest)
  obtain r1 s1 where st: "process_archive_id w aid acc self = (r1, s1)"
    by (cases "process_archive_id w aid acc self")
  note f = process_archive_id_frame [OF st]
  show ?case
  proof (cases r1)
    case (Inl e)
    then show ?thesis using Cons.prems st f by simp
  next
    case (Inr acc1)
    then have "process_archive_ids_loop w rest acc1 s1 = (r, self1)" using Cons.prems st by simp
    from Cons.IH [OF this] show ?thesis using f by simp
  qed
qed

lemma process_archive_ids_effect:
  assumes "process_archive_ids w self ids = (r, self1)"
  shows "(case r of
            Inl e \<Rightarrow> trace self1 = trace self
          | Inr u \<Rightarrow>
              (\<exists>crs ms. trace self1 = trace self @
                    [InsertAdCreativeRecords crs, UpdateAdSnapshotMetadata ms] \<and>
                 map snapshot_archive_id ms = ids \<and>
                 (\<forall>m \<in> set ms. status_explained w m) \<and>
                 (distinct ids \<longrightarrow> distinct (map unique_constraint_attrs_of crs)) \<and>
                 archive_id ` set crs \<subseteq> set ids)) \<and>
         current_batch_id self1 = current_batch_id self"
proof -
  obtain r0 s0 where l: "process_archive_ids_loop w ids (0, [], []) self = (r0, s0)"
    by (cases "process_archive_ids_loop w ids (0, [], []) self")
  show ?thesis
  proof (cases r0)
    case (Inl e)
    then show ?thesis using assms l process_archive_ids_loop_frame [OF l]
      by (auto simp: process_archive_ids_def)
  next
    case (Inr acc)
    from process_archive_ids_loop_effect [OF l [unfolded Inr]]
    obtain k ms new where e: "acc = (k, ms, new)" "map snapshot_archive_id ms = ids"
      "distinct ids \<longrightarrow> distinct (map unique_constraint_attrs_of new)"
      "archive_id ` set new \<subseteq> set ids" "trace s0 = trace self"
      "\<forall>m \<in> set ms. status_explained w m" by auto
    show ?thesis using assms l Inr e process_archive_ids_loop_frame [OF l]
      by (auto simp: process_archive_ids_def)
  qed
qed


lemma emitted_creative_records_append:
  "emitted_creative_records (xs @ ys) = emitted_creative_records xs @ emitted_creative_records ys"
  by (induction xs rule: emitted_creative_records.induct) auto

lemma emitted_metadata_records_append:
  "emitted_metadata_records (xs @ ys) = emitted_metadata_records xs @ emitted_metadata_records ys"
  by (induction xs rule: emitted_metadata_records.induct) auto

lemma process_chunks_effect:
  "process_chunks w cs self = (r, self1) \<Longrightarrow>
   \<exists>evs. trace self1 = trace self @ evs \<and> (\<forall>ev \<in> set evs. is_chunk_write ev) \<and>
      (distinct (concat cs) \<longrightarrow>
         distinct (map unique_constraint_attrs_of (emitted_creative_records evs))) \<and>
      archive_id ` set (emitted_creative_records evs) \<subseteq> set (concat cs) \<and>
      (\<forall>u. r = Inr u \<longrightarrow> map snapshot_archive_id (emitted_metadata_records evs) = concat cs) \<and>
      (\<forall>m \<in> set (emitted_metadata_records evs). status_explained w m) \<and>
      current_batch_id self1 = current_batch_id self"
proof (induction cs arbitrary: self)
  case Nil
  then show ?case by simp
next
  case (Cons c cs)
  obtain r1 s1 where st: "process_archive_ids w self c = (r1, s1)"
    by (cases "process_archive_ids w self c")
  note e = process_archive_ids_effect [OF st]
  show ?case
  proof (cases r1)
    case (Inl x)
    then have "trace self1 = trace self @ []" "r = Inl x"
      "current_batch_id self1 = current_batch_id self" using Cons.prems st e by auto
    then show ?thesis by (intro exI [of _ "[]"]) simp
  next
    case (Inr u)
    then obtain crs ms where c: "trace s1 = trace self @
          [InsertAdCreativeRecords crs, UpdateAdSnapshotMetadata ms]"
      "map snapshot_archive_id ms = c"
      "distinct c \<longrightarrow> distinct (map unique_constraint_attrs_of crs)"
      "archive_id ` set crs \<subseteq> set c" "\<forall>m \<in> set ms. status_explained w m"
      "current_batch_id s1 = current_batch_id self" using e by auto
    have "process_chunks w cs s1 = (r, self1)" using Cons.prems st Inr by simp
    from Cons.IH [OF this]
    obtain evs where i: "trace self1 = trace s1 @ evs" "\<forall>ev \<in> set evs. is_chunk_write ev"
      "distinct (concat cs) \<longrightarrow>
         distinct (map unique_constraint_attrs_of (emitted_creative_records evs))"
      "archive_id ` set (emitted_creative_records evs) \<subseteq> set (concat cs)"
      "\<forall>u. r = Inr u \<longrightarrow> map snapshot_archive_id (emitted_metadata_records evs) = concat cs"
      "\<forall>m \<in> set (emitted_metadata_records evs). status_explained w m"
      "current_batch_id self1 = current_batch_id s1"
      by blast
    let ?evs = "[InsertAdCreativeRecords crs, UpdateAdSnapshotMetadata ms] @ evs"
    have em: "emitted_creative_records ?evs = crs @ emitted_creative_records evs"
      "emitted_metadata_records ?evs = ms @ emitted_metadata_records evs" by simp_all
    have t: "trace self1 = trace self @ ?evs" using c(1) i(1) by simp
    have w: "\<forall>ev \<in> set ?evs. is_chunk_write ev" using i(2) by (simp add: is_chunk_write_def)
    have d: "distinct (concat (c # cs)) \<longrightarrow>
         distinct (map unique_constraint_attrs_of (emitted_creative_records ?evs))"
    proof
      assume di: "distinct (concat (c # cs))"
      then have "set c \<inter> set (concat cs) = {}" "distinct c" "distinct (concat cs)" by auto
      then have "archive_id ` set crs \<inter> archive_id ` set (emitted_creative_records evs) = {}"
        using c(4) i(4) by blast
      then show "distinct (map unique_constraint_attrs_of (emitted_creative_records ?evs))"
        unfolding em using distinct_tuples_append c(3) i(3) \<open>distinct c\<close> \<open>distinct (concat cs)\<close>
        by blast
    qed
    have sub: "archive_id ` set (emitted_creative_records ?evs) \<subseteq> set (concat (c # cs))"
      unfolding em using c(4) i(4) by auto
    have md: "\<forall>u. r = Inr u \<longrightarrow>
        map snapshot_archive_id (emitted_metadata_records ?evs) = concat (c # cs)"
      unfolding em using c(2) i(5) by simp
    have se: "\<forall>m \<in> set (emitted_metadata_records ?evs). status_explained w m"
      unfolding em using c(5) i(6) by auto
    have cb: "current_batch_id self1 = current_batch_id self" using c(6) i(7) by simp
    show ?thesis
      by (rule exI [of _ ?evs]) (intro conjI t w d sub md se cb)
  qed
qed

lemma concat_chunks_from:
  "0 < n \<Longrightarrow> concat (chunks_from n xs) = xs"
proof (induction n xs rule: chunks_from.induct)
  case (1 chunk_size original_list)
  show ?case
  proof (cases "original_list = []")
    case True
    then show ?thesis by (subst chunks_from.simps) simp
  next
    case False
    then have "concat (chunks_from chunk_size (drop chunk_size original_list)) =
        drop chunk_size original_list" using 1 by simp
    then show ?thesis using False 1(2)
      by (subst chunks_from.simps) simp
  qed
qed

lemma process_batch_effect:
  assumes "process_batch w self archive_id_batch = (r, self1)"
  shows "\<exists>evs. trace self1 = trace self @ evs @
              (case r of Inl e \<Rightarrow> [ReleaseUncompletedFetchBatch (current_batch_id self1)]
                       | Inr u \<Rightarrow> []) \<and>
           (\<forall>ev \<in> set evs. is_chunk_write ev) \<and>
           (distinct archive_id_batch \<longrightarrow>
              distinct (map unique_constraint_attrs_of (emitted_creative_records evs))) \<and>
           archive_id ` set (emitted_creative_records evs) \<subseteq> set archive_id_batch \<and>
           (\<forall>u. r = Inr u \<longrightarrow>
              map snapshot_archive_id (emitted_metadata_records evs) = archive_id_batch) \<and>
           (\<forall>m \<in> set (emitted_metadata_records evs). status_explained w m) \<and>
           current_batch_id self1 = current_batch_id self"
proof (cases "commit_to_db_every_n_processed self = 0")
  case True
  then have "r = Inl ValueError"
    "trace self1 = trace self @ [] @ [ReleaseUncompletedFetchBatch (current_batch_id self1)]"
    "current_batch_id self1 = current_batch_id self"
    using assms by (auto simp: process_batch_def chunks_def)
  then show ?thesis by (intro exI [of _ "[]"]) simp
next
  case False
  let ?cs = "chunks_from (commit_to_db_every_n_processed self) archive_id_batch"
  have cc: "concat ?cs = archive_id_batch" using False by (simp add: concat_chunks_from)
  obtain r0 s0 where pc: "process_chunks w ?cs self = (r0, s0)"
    by (cases "process_chunks w ?cs self")
  from process_chunks_effect [OF pc, unfolded cc]
  obtain evs where e: "trace s0 = trace self @ evs" "\<forall>ev \<in> set evs. is_chunk_write ev"
    "distinct archive_id_batch \<longrightarrow>
       distinct (map unique_constraint_attrs_of (emitted_creative_records evs))"
    "archive_id ` set (emitted_creative_records evs) \<subseteq> set archive_id_batch"
    "\<forall>u. r0 = Inr u \<longrightarrow> map snapshot_archive_id (emitted_metadata_records evs) = archive_id_batch"
    "\<forall>m \<in> set (emitted_metadata_records evs). status_explained w m"
    "current_batch_id s0 = current_batch_id self"
    by blast
  have r: "r = r0" using assms pc False
    by (auto simp: process_batch_def chunks_def split: sum.splits)
  have t: "trace self1 = trace self @ evs @
              (case r of Inl e \<Rightarrow> [ReleaseUncompletedFetchBatch (current_batch_id self1)]
                       | Inr u \<Rightarrow> [])"
    using assms pc False e(1)
    by (auto simp: process_batch_def chunks_def split: sum.splits)
  have m: "\<forall>u. r = Inr u \<longrightarrow>
      map snapshot_archive_id (emitted_metadata_records evs) = archive_id_batch"
    using e(5) r by simp
  have cb: "current_batch_id self1 = current_batch_id self"
    using assms pc False e(7)
    by (auto simp: process_batch_def chunks_def split: sum.splits)
  show ?thesis
    by (rule exI [of _ evs]) (intro conjI t e(2) e(3) e(4) m e(6) cb)
qed



section \<open>Batches: the records handed to the store\<close>

lemma new_events_append:
  "trace after = trace before @ evs \<Longrightarrow> new_events before after = evs"
  by (simp add: new_events_def)

text \<open>
  C5. For a batch of pairwise distinct archive ids, whatever way its processing ends, no
  two of the creative records handed to the store for upsert have the same tuple of
  archive id, text, image and video SHA-256 (a missing hash is a value of its own). What
  one archive id adds to the list of its chunk is the same whatever the ids before it
  added, and has no two records with the same tuple: a record is only dropped for an
  earlier record of the same archive id, never for one of another archive id.
\<close>

theorem emitted_creative_records_unique:
  assumes "distinct archive_id_batch"
    and "process_batch w self archive_id_batch = (r, self1)"
  shows "distinct (map unique_constraint_attrs_of
                     (emitted_creative_records (new_events self self1))) \<and>
         (\<forall>aid acc s acc1 s1. process_archive_id w aid acc s = (Inr acc1, s1) \<longrightarrow>
            (\<exists>k m new. distinct (map unique_constraint_attrs_of new) \<and>
               (\<forall>n ms crs. process_archive_id w aid (n, ms, crs) s =
                  (Inr (n + k, ms @ [m], crs @ new), s1))))"
proof -
  from process_batch_effect [OF assms(2)]
  obtain evs where e: "trace self1 = trace self @ evs @
        (case r of Inl e \<Rightarrow> [ReleaseUncompletedFetchBatch (current_batch_id self1)]
                 | Inr u \<Rightarrow> [])"
    "distinct (map unique_constraint_attrs_of (emitted_creative_records evs))"
    using assms(1) by blast
  have "emitted_creative_records (new_events self self1) = emitted_creative_records evs"
    using new_events_append [OF e(1)]
    by (cases r) (simp_all add: emitted_creative_records_append)
  then have a: "distinct (map unique_constraint_attrs_of
                     (emitted_creative_records (new_events self self1)))" using e(2) by simp
  have b: "\<exists>k m new. distinct (map unique_constraint_attrs_of new) \<and>
               (\<forall>n ms crs. process_archive_id w aid (n, ms, crs) s =
                  (Inr (n + k, ms @ [m], crs @ new), s1))"
    if "process_archive_id w aid acc s = (Inr acc1, s1)" for aid acc s acc1 s1
  proof -
    obtain n ms crs where "acc = (n, ms, crs)" by (cases acc) auto
    from process_archive_id_effect [OF that [unfolded this]] show ?thesis by blast
  qed
  show ?thesis using a b by blast
qed

theorem emitted_creative_records_unique_witness:
  "distinct [3, 4 :: int] \<and>
   distinct (map unique_constraint_attrs_of
      (emitted_creative_records
         (new_events example_retriever (snd (process_batch example_world example_retriever [3, 4]))))) \<and>
   map unique_constraint_attrs_of
      (emitted_creative_records
         (new_events example_retriever (snd (process_batch example_world example_retriever [3, 4])))) =
     [(3, Some ''sha256:hello world'', None, None), (4, Some ''sha256:hello world'', None, None)]"
proof -
  have d: "distinct [3, 4 :: int]" by simp
  have c: "map unique_constraint_attrs_of
      (emitted_creative_records
         (new_events example_retriever (snd (process_batch example_world example_retriever [3, 4])))) =
     [(3, Some ''sha256:hello world'', None, None), (4, Some ''sha256:hello world'', None, None)]"
    by code_simp
  show ?thesis
    using emitted_creative_records_unique
            [OF d prod.collapse [symmetric], where w = example_world and self = example_retriever]
      d c by simp
qed








section \<open>The lease loop: the rate limit\<close>








end
